theory Spec2Isabelle
  imports Main "HOL-Library.AList" "HOL-Library.Char_ord" "HOL-Library.List_Lexorder"
    "HOL-Library.Sublist"
begin

section \<open>Strings of the Python runtime\<close>

text \<open>
  Python strings are modelled as \<^typ>\<open>string\<close>: lists of characters with code points
  below 256. On that range \<open>\s\<close> of \<open>re\<close> and \<open>str.strip\<close> agree on which
  characters are whitespace (both ask \<open>str.isspace\<close>): 0x09..0x0D, 0x1C..0x1F, 0x20,
  0x85 and 0xA0. \<open>\d\<close> is the ten ASCII digits, and \<open>str.lower\<close> maps \<open>A..Z\<close> and the
  upper-case letters 0xC0..0xDE (except the multiplication sign 0xD7) to the code point 32
  higher.
\<close>

definition isspace :: "char \<Rightarrow> bool" where
  "isspace c = (let n = (of_char c :: nat) in
     (9 \<le> n \<and> n \<le> 13) \<or> (28 \<le> n \<and> n \<le> 32) \<or> n = 133 \<or> n = 160)"

definition isdigit :: "char \<Rightarrow> bool" where
  "isdigit c = (let n = (of_char c :: nat) in 48 \<le> n \<and> n \<le> 57)"

text \<open>The character class \<open>[A-Z-]\<close> of the prefix pattern.\<close>

definition is_tag_char :: "char \<Rightarrow> bool" where
  "is_tag_char c = (let n = (of_char c :: nat) in (65 \<le> n \<and> n \<le> 90) \<or> n = 45)"

definition lower_char :: "char \<Rightarrow> char" where
  "lower_char c = (let n = (of_char c :: nat) in
     if (65 \<le> n \<and> n \<le> 90) \<or> (192 \<le> n \<and> n \<le> 222 \<and> n \<noteq> 215)
     then char_of (n + 32) else c)"

definition lower :: "string \<Rightarrow> string" where
  "lower s = map lower_char s"

text \<open>\<open>s.strip()\<close>: whitespace removed at both ends.\<close>

definition strip :: "string \<Rightarrow> string" where
  "strip s = rev (dropWhile isspace (rev (dropWhile isspace s)))"

text \<open>\<open>s.split(sep)\<close> for the one-character separator \<open>sep\<close>; the result is never empty.\<close>

fun split_char :: "char \<Rightarrow> string \<Rightarrow> string list" where
  "split_char sep [] = [[]]"
| "split_char sep (c # cs) =
     (if c = sep then [] # split_char sep cs
      else (case split_char sep cs of
              [] \<Rightarrow> [[c]]
            | w # ws \<Rightarrow> (c # w) # ws))"

text \<open>\<open>needle in hay\<close>: \<open>needle\<close> occurs as a contiguous piece of \<open>hay\<close>.\<close>

fun contains :: "string \<Rightarrow> string \<Rightarrow> bool" where
  "contains [] needle = (needle = [])"
| "contains (c # cs) needle = (prefix needle (c # cs) \<or> contains cs needle)"

text \<open>\<open>s.split(sep)[0]\<close>: the text before the first occurrence of \<open>sep\<close>, all of \<open>s\<close>
  when there is none (\<open>sep\<close> is not empty where the program calls it).\<close>

fun before_sep :: "string \<Rightarrow> string \<Rightarrow> string" where
  "before_sep sep [] = []"
| "before_sep sep (c # cs) = (if prefix sep (c # cs) then [] else c # before_sep sep cs)"

section \<open>Card-name clean-up\<close>

text \<open>
  The patterns of the program are sequences of single characters and of character classes
  under \<open>*\<close> or \<open>+\<close>. \<open>re_match\<close> is the backtracking matcher of \<open>re\<close> on such a
  sequence, tried at the start of a string: a starred class first takes as many
  characters as it can and gives them back one at a time while the rest of the pattern
  fails. The result is what is left of the string after the first match found.
\<close>

datatype re_item = Lit char | Star "char \<Rightarrow> bool" | Plus "char \<Rightarrow> bool"

fun re_match :: "re_item list \<Rightarrow> string \<Rightarrow> string option" where
  "re_match [] s = Some s"
| "re_match (Lit c # r) [] = None"
| "re_match (Lit c # r) (x # xs) = (if x = c then re_match r xs else None)"
| "re_match (Plus P # r) [] = None"
| "re_match (Plus P # r) (x # xs) = (if P x then re_match (Star P # r) xs else None)"
| "re_match (Star P # r) [] = re_match r []"
| "re_match (Star P # r) (x # xs) =
     (if P x
      then (case re_match (Star P # r) xs of
              Some rest \<Rightarrow> Some rest
            | None \<Rightarrow> re_match r (x # xs))
      else re_match r (x # xs))"

text \<open>The pattern \<open>^\d+\s*-\s*[A-Z-]*\s*\<close> of \<open>clean_card_name\<close>.\<close>

definition prefix_pattern :: "re_item list" where
  "prefix_pattern =
     [Plus isdigit, Star isspace, Lit (CHR ''-''), Star isspace, Star is_tag_char, Star isspace]"

text \<open>
  \<open>re.sub(r'^\d+\s*-\s*[A-Z-]*\s*', '', line)\<close>. The pattern is anchored at the start of
  the string (no MULTILINE flag) and cannot match the empty string, so at most one match,
  at the start, is replaced by the empty string.
\<close>

definition re_sub_prefix :: "string \<Rightarrow> string" where
  "re_sub_prefix line = (case re_match prefix_pattern line of None \<Rightarrow> line | Some rest \<Rightarrow> rest)"

text \<open>
  The match in closed form: all leading digits (at least one), all whitespace, a hyphen,
  all whitespace, all characters of \<open>[A-Z-]\<close>, all whitespace (\<open>re_match_prefix\<close> below).
\<close>

definition match_prefix :: "string \<Rightarrow> string option" where
  "match_prefix line =
     (if takeWhile isdigit line = [] then None
      else (case dropWhile isspace (dropWhile isdigit line) of
              [] \<Rightarrow> None
            | c # rest \<Rightarrow>
                if c = CHR ''-''
                then Some (dropWhile isspace (dropWhile is_tag_char (dropWhile isspace rest)))
                else None))"

text \<open>
  \<open>IndexerBot.clean_card_name\<close>. On a string \<open>re.sub\<close> and \<open>strip\<close> do not raise, so the
  \<open>except\<close> branch (return the raw line) is not reachable from \<open>on_message\<close>, which passes
  the pieces of \<open>str.split\<close>.
\<close>

definition clean_card_name :: "string \<Rightarrow> string" where
  "clean_card_name line = strip (re_sub_prefix line)"

text \<open>Lines 93, 96 and 97 of \<open>on_message\<close>: the cleaned lines of the embed body, and the
  ones the indexing loop does not skip.\<close>

definition cards_in_embed :: "string \<Rightarrow> string list" where
  "cards_in_embed description = map clean_card_name (split_char (CHR 0x0A) description)"

definition extracted_cards :: "string \<Rightarrow> string list" where
  "extracted_cards description = filter (\<lambda>card_name. card_name \<noteq> []) (cards_in_embed description)"

definition example_body :: string where
  "example_body = ''12 - AB Firebolt Dragon'' @ [CHR 0x0A, CHR 0x0A] @ ''34 -  Shield Knight''"

section \<open>The card database\<close>

text \<open>
  The database is a Python \<open>dict\<close> from card name to the list of owner ids. It is
  modelled as an association list in insertion order: \<open>k in db\<close> and \<open>db[k]\<close> read it
  through \<^const>\<open>map_of\<close>, and \<open>db[k] = v\<close> is \<^const>\<open>AList.update\<close>, which replaces
  the value of a key that is present and puts a new key at the end.
\<close>

type_synonym database = "(string \<times> string list) list"

definition owners_of :: "database \<Rightarrow> string \<Rightarrow> string list" where
  "owners_of db card_name = (case map_of db card_name of None \<Rightarrow> [] | Some owner_list \<Rightarrow> owner_list)"

text \<open>
  One round of the loop of lines 96 to 101, on the pair of the database and
  \<open>updated_cards\<close>. After line 98 the key is present, so \<open>db[card_name]\<close> of lines 99 and
  100 cannot raise \<open>KeyError\<close>; the \<open>None\<close> branch below is that unreachable case.
\<close>

definition index_card :: "string \<Rightarrow> database \<times> string list \<Rightarrow> string \<Rightarrow> database \<times> string list" where
  "index_card owner_id acc card_name =
     (let db = fst acc; updated_cards = snd acc in
      if card_name = [] then (db, updated_cards)
      else
        let db1 = (if map_of db card_name = None then AList.update card_name [] db else db) in
        (case map_of db1 card_name of
           None \<Rightarrow> (db1, updated_cards)
         | Some owner_list \<Rightarrow>
             if owner_id \<in> set owner_list then (db1, updated_cards)
             else (AList.update card_name (owner_list @ [owner_id]) db1,
                   updated_cards @ [card_name])))"

definition index_cards :: "string \<Rightarrow> database \<Rightarrow> string list \<Rightarrow> database \<times> string list" where
  "index_cards owner_id db cards = foldl (index_card owner_id) (db, []) cards"

text \<open>The invariant of the data model: no owner id occurs twice in a card's list.\<close>

definition owners_unique :: "database \<Rightarrow> bool" where
  "owners_unique db = list_all (\<lambda>entry. distinct (snd entry)) db"

section \<open>The rolling log\<close>

text \<open>
  \<open>log_to_global\<close>: the entry is put at the front and the list is cut to 50 entries.
  The clock reading \<open>time.strftime('%H:%M:%S')\<close> is the argument \<open>now\<close>.
\<close>

definition log_entry :: "string \<Rightarrow> string \<Rightarrow> string" where
  "log_entry now message = ''['' @ now @ ''] '' @ message"

definition log_to_global :: "string \<Rightarrow> string \<Rightarrow> string list \<Rightarrow> string list" where
  "log_to_global now message LOG_MESSAGES = take 50 (log_entry now message # LOG_MESSAGES)"

text \<open>A run of calls, each a pair of its clock reading and its message, oldest first.\<close>

definition log_calls :: "(string \<times> string) list \<Rightarrow> string list \<Rightarrow> string list" where
  "log_calls calls LOG_MESSAGES =
     foldl (\<lambda>logs call. log_to_global (fst call) (snd call) logs) LOG_MESSAGES calls"

text \<open>\<open>api_logs\<close> answers with the list as it is.\<close>

definition api_logs :: "string list \<Rightarrow> string list" where
  "api_logs LOG_MESSAGES = LOG_MESSAGES"

section \<open>The persistent store\<close>

text \<open>
  The exceptions that reading the file can raise. \<open>open\<close> raises \<open>IOError\<close> (\<open>OSError\<close>);
  \<open>json.load\<close> raises \<open>JSONDecodeError\<close> on text that is not JSON, and its \<open>f.read()\<close>
  raises \<open>UnicodeDecodeError\<close> on bytes that are not UTF-8; \<open>UnicodeDecodeError\<close> is a
  \<open>ValueError\<close> and neither a \<open>JSONDecodeError\<close> nor an \<open>IOError\<close>.
\<close>

datatype exn = JSONDecodeError | IOError | UnicodeDecodeError

text \<open>
  What the program does to its surroundings is recorded in \<open>events\<close>, oldest first.
\<close>

datatype event = Makedirs | OpenRead | OpenWrite | LogError string | LogInfo string

text \<open>
  The surroundings of the program: whether \<open>DATA_DIR\<close> exists, the content of
  \<open>DATABASE_FILE\<close> (\<open>None\<close> when \<open>os.path.exists\<close> is false), whether opening it for
  reading or for writing is refused, and the events so far. \<open>os.makedirs\<close> is taken to
  succeed, and a write that \<open>open\<close> accepted is taken to complete.
\<close>

record world =
  data_dir_exists :: bool
  database_file :: "string option"
  read_refused :: bool
  write_refused :: bool
  events :: "event list"

definition DATABASE_FILE :: string where
  "DATABASE_FILE = ''/var/data/card_database.json''"

definition emit :: "event \<Rightarrow> world \<Rightarrow> world" where
  "emit e w = w\<lparr>events := events w @ [e]\<rparr>"

text \<open>\<open>if not os.path.exists(DATA_DIR): os.makedirs(DATA_DIR)\<close>\<close>

definition ensure_data_dir :: "world \<Rightarrow> world" where
  "ensure_data_dir w = (if data_dir_exists w then w else emit Makedirs (w\<lparr>data_dir_exists := True\<rparr>))"

text \<open>
  \<open>json.load\<close> and \<open>json.dump(_, indent=4)\<close> belong to the Python library, not to the
  repository: they are the parameters \<open>json_load\<close>, from the bytes of the file to a
  database or an exception, and \<open>json_dump\<close>. Only files whose JSON value has the shape of
  a database are in the range of \<open>json_load\<close>.

  \<open>load_database\<close> returns the database or the exception that leaves it, and the world.
\<close>

definition load_database :: "(string \<Rightarrow> exn + database) \<Rightarrow> world \<Rightarrow> (exn + database) \<times> world" where
  "load_database json_load w =
     (let w1 = ensure_data_dir w in
      case database_file w1 of
        None \<Rightarrow> (Inr [], w1)
      | Some content \<Rightarrow>
          let w2 = emit OpenRead w1 in
          (case (if read_refused w2 then Inl IOError else json_load content) of
             Inr db \<Rightarrow> (Inr db, w2)
           | Inl e \<Rightarrow>
               if e = JSONDecodeError \<or> e = IOError
               then (Inr [],
                     emit (LogError (''Could not read or parse '' @ DATABASE_FILE @
                                     ''. Starting with an empty database.'')) w2)
               else (Inl e, w2)))"

definition save_database :: "(database \<Rightarrow> string) \<Rightarrow> database \<Rightarrow> world \<Rightarrow> world" where
  "save_database json_dump db w =
     (let w1 = ensure_data_dir w; w2 = emit OpenWrite w1 in
      if write_refused w2
      then emit (LogError (''Could not write to '' @ DATABASE_FILE @ ''.'')) w2
      else w2\<lparr>database_file := Some (json_dump db)\<rparr>)"

section \<open>The listener\<close>

definition TARGET_BOT_ID :: int where
  "TARGET_BOT_ID = 1261042392413372520"

definition TARGET_SERVER_ID :: int where
  "TARGET_SERVER_ID = 123456789012345678"

record embed_author =
  author_name :: "string option"
  author_icon_url :: "string option"

record embed =
  embed_author :: "embed_author option"
  embed_description :: "string option"

record message =
  guild_id :: "int option"
  author_id :: int
  embeds :: "embed list"
  channel_name :: string

text \<open>The listener's own state with the global log list and the world around it.\<close>

record bot =
  card_database :: database
  LOG_MESSAGES :: "string list"
  env :: world

text \<open>
  \<open>re.search(r"/avatars/(\d+)/", url)\<close>: \<open>match_avatar\<close> tries the pattern at the start of
  its argument and \<open>search_avatar\<close> tries every position from the left, so the first match
  wins. Group 1 of a match is the run of digits after the nine characters of
  \<open>/avatars/\<close>: the \<open>\d+\<close> must be followed by the slash, so it holds the whole run.
\<close>

definition avatar_pattern :: "re_item list" where
  "avatar_pattern = map Lit ''/avatars/'' @ [Plus isdigit, Lit (CHR ''/'')]"

definition match_avatar :: "string \<Rightarrow> string option" where
  "match_avatar s =
     (case re_match avatar_pattern s of
        None \<Rightarrow> None
      | Some rest \<Rightarrow> Some (takeWhile isdigit (drop 9 s)))"

fun search_avatar :: "string \<Rightarrow> string option" where
  "search_avatar [] = None"
| "search_avatar (c # cs) =
     (case match_avatar (c # cs) of
        Some owner_id \<Rightarrow> Some owner_id
      | None \<Rightarrow> search_avatar cs)"

text \<open>\<open>embed.author.name.split("'s")[0]\<close>\<close>

definition owner_label :: "string \<Rightarrow> string" where
  "owner_label name = before_sep [CHR 0x27, CHR ''s''] name"

text \<open>\<open>str(n)\<close> of a length.\<close>

fun str_nat :: "nat \<Rightarrow> string" where
  "str_nat n = (if n < 10 then [char_of (48 + n)]
                else str_nat (n div 10) @ [char_of (48 + n mod 10)])"

definition indexed_message :: "nat \<Rightarrow> string \<Rightarrow> string \<Rightarrow> string" where
  "indexed_message n owner_name channel =
     ''Indexed '' @ str_nat n @ '' new card(s) from '' @ owner_name @ '' in #'' @ channel @ ''.''"

text \<open>
  What lines 86 to 93 take from an embed that passes the tests of lines 86, 88 and 90:
  the owner id, the owner label and the cleaned lines. \<open>None\<close> is an embed the loop
  passes over: a missing or empty field, an author name with neither word, or an icon
  URL without the avatar pattern.
\<close>

definition extract_embed :: "embed \<Rightarrow> (string \<times> string \<times> string list) option" where
  "extract_embed e =
     (case embed_author e of
        None \<Rightarrow> None
      | Some a \<Rightarrow>
          (case (author_name a, embed_description e, author_icon_url a) of
             (Some name, Some description, Some icon_url) \<Rightarrow>
               if name = [] \<or> description = [] \<or> icon_url = [] then None
               else if contains (lower name) ''collection'' \<or> contains (lower name) ''wishlist''
               then (case search_avatar icon_url of
                       None \<Rightarrow> None
                     | Some owner_id \<Rightarrow>
                         Some (owner_id, owner_label name, cards_in_embed description))
               else None
           | _ \<Rightarrow> None))"

text \<open>The body of the loop over the embeds, lines 86 to 106.\<close>

definition process_embed ::
  "(database \<Rightarrow> string) \<Rightarrow> string \<Rightarrow> string \<Rightarrow> bot \<Rightarrow> embed \<Rightarrow> bot" where
  "process_embed json_dump now channel st e =
     (case extract_embed e of
        None \<Rightarrow> st
      | Some (owner_id, owner_name, cards) \<Rightarrow>
          (let r = index_cards owner_id (card_database st) cards;
               db = fst r; updated_cards = snd r;
               st1 = st\<lparr>card_database := db\<rparr> in
           if updated_cards = [] then st1
           else
             let log_message = indexed_message (length updated_cards) owner_name channel in
             st1\<lparr>LOG_MESSAGES := log_to_global now log_message (LOG_MESSAGES st1),
                 env := save_database json_dump db (emit (LogInfo log_message) (env st1))\<rparr>))"

definition on_message :: "(database \<Rightarrow> string) \<Rightarrow> string \<Rightarrow> message \<Rightarrow> bot \<Rightarrow> bot" where
  "on_message json_dump now msg st =
     (if guild_id msg = None \<or> guild_id msg \<noteq> Some TARGET_SERVER_ID
         \<or> author_id msg \<noteq> TARGET_BOT_ID \<or> embeds msg = []
      then st
      else foldl (process_embed json_dump now (channel_name msg)) st (embeds msg))"

section \<open>The query service\<close>

text \<open>The loop of lines 125 to 127 over \<open>db.items()\<close>, building the set \<open>found_ids\<close>.\<close>

definition found_ids :: "string \<Rightarrow> database \<Rightarrow> string set" where
  "found_ids query db =
     foldl (\<lambda>found item. if contains (lower (fst item)) query then found \<union> set (snd item) else found)
       {} db"

text \<open>
  \<open>api_search\<close>, on the value of the request parameter \<open>q\<close> (the empty string when it is
  absent): the owners list of the answer, or the exception that leaves \<open>load_database\<close>,
  and the world.
\<close>

definition api_search ::
  "(string \<Rightarrow> exn + database) \<Rightarrow> string \<Rightarrow> world \<Rightarrow> (exn + string list) \<times> world" where
  "api_search json_load q w =
     (let query = strip (lower q) in
      if query = [] then (Inr [], w)
      else (case load_database json_load w of
              (Inl e, w') \<Rightarrow> (Inl e, w')
            | (Inr db, w') \<Rightarrow> (Inr (sorted_list_of_set (found_ids query db)), w')))"

section \<open>Example data\<close>

text \<open>
  The database of the search example, a file holding it, and a \<open>json\<close> library that is
  only described on the three files used below: the file of the example, a file of the one
  byte 0xFF (not UTF-8), and anything else, taken as text that is not JSON.
\<close>

definition quoted :: "string \<Rightarrow> string" where
  "quoted s = [CHR 0x22] @ s @ [CHR 0x22]"

definition example_db :: database where
  "example_db = [(''Firebolt Dragon'', [''1'', ''2'']), (''Shield Knight'', [''3''])]"

definition example_file :: string where
  "example_file = ''{'' @ quoted ''Firebolt Dragon'' @ '': ['' @ quoted ''1'' @ '', '' @ quoted ''2''
     @ ''], '' @ quoted ''Shield Knight'' @ '': ['' @ quoted ''3'' @ '']}''"

definition example_json_load :: "string \<Rightarrow> exn + database" where
  "example_json_load content =
     (if content = example_file then Inr example_db
      else if content = [CHR 0xFF] then Inl UnicodeDecodeError
      else Inl JSONDecodeError)"

definition example_json_dump :: "database \<Rightarrow> string" where
  "example_json_dump db = (if db = example_db then example_file else ''{}'')"

definition example_world :: world where
  "example_world = \<lparr>data_dir_exists = True, database_file = Some example_file,
     read_refused = False, write_refused = False, events = []\<rparr>"

definition empty_world :: world where
  "empty_world = \<lparr>data_dir_exists = False, database_file = None,
     read_refused = False, write_refused = False, events = []\<rparr>"

text \<open>An embed of Alice's collection with the example body, and a listener that has
  indexed nothing yet.\<close>

definition alice_name :: string where
  "alice_name = ''Alice'' @ [CHR 0x27] @ ''s Collection''"

definition alice_embed :: "string \<Rightarrow> embed" where
  "alice_embed icon_url = \<lparr>embed_author = Some \<lparr>author_name = Some alice_name,
       author_icon_url = Some icon_url\<rparr>, embed_description = Some example_body\<rparr>"

definition empty_bot :: bot where
  "empty_bot = \<lparr>card_database = [], LOG_MESSAGES = [], env = empty_world\<rparr>"

definition alice_url :: string where
  "alice_url = ''https://cdn.discordapp.com/avatars/555/a.png''"

definition two_avatars_url :: string where
  "two_avatars_url = ''https://cdn.discordapp.com/avatars/1/avatars/555/a.png''"

text \<open>
  The search as the specification words it: the query is only lowercased, and the answer
  is the sorted, duplicate-free list of the owners of every card whose lowercased name
  contains it.
\<close>

definition search_as_claimed :: "database \<Rightarrow> string \<Rightarrow> string list" where
  "search_as_claimed db q =
     sort (remdups (concat (map snd (filter (\<lambda>item. contains (lower (fst item)) (lower q)) db))))"

section \<open>Properties\<close>

subsection \<open>The prefix pattern\<close>

lemma star_greedy:
  "re_match r (dropWhile P s) = Some t \<Longrightarrow> re_match (Star P # r) s = Some t"
  by (induction s) auto

lemma star_last: "re_match [Star P] s = Some (dropWhile P s)"
  by (induction s) auto

lemma star_blocked:
  "(\<And>x xs. P x \<Longrightarrow> re_match r (x # xs) = None) \<Longrightarrow>
   re_match (Star P # r) s = re_match r (dropWhile P s)"
  by (induction s) (auto split: option.splits)

lemma tail_total:
  "re_match [Star isspace, Star is_tag_char, Star isspace] s
     = Some (dropWhile isspace (dropWhile is_tag_char (dropWhile isspace s)))"
  by (intro star_greedy) simp

lemma digit_not_space: "isdigit x \<Longrightarrow> \<not> isspace x"
  by (auto simp add: isdigit_def isspace_def Let_def)

lemma space_not_hyphen: "isspace x \<Longrightarrow> x \<noteq> CHR ''-''"
  by (auto simp add: isspace_def Let_def)

lemma digit_not_hyphen: "isdigit x \<Longrightarrow> x \<noteq> CHR ''-''"
  by (auto simp add: isdigit_def Let_def)

lemma after_spaces:
  "re_match (Star isspace # Lit (CHR ''-'') # r) s = re_match (Lit (CHR ''-'') # r) (dropWhile isspace s)"
  by (rule star_blocked) (simp add: space_not_hyphen)

lemma after_digits:
  "re_match (Star isdigit # Star isspace # Lit (CHR ''-'') # r) s
     = re_match (Star isspace # Lit (CHR ''-'') # r) (dropWhile isdigit s)"
  by (rule star_blocked) (simp add: digit_not_space digit_not_hyphen)

lemma lit_case:
  "re_match (Lit c # r) s = (case s of [] \<Rightarrow> None | x # rest \<Rightarrow> if x = c then re_match r rest else None)"
  by (cases s) simp_all

lemma re_match_prefix: "re_match prefix_pattern line = match_prefix line"
proof (cases line)
  case Nil
  then show ?thesis by (simp add: prefix_pattern_def match_prefix_def)
next
  case (Cons x xs)
  show ?thesis
  proof (cases "isdigit x")
    case False
    with Cons show ?thesis by (simp add: prefix_pattern_def match_prefix_def)
  next
    case True
    let ?s = "dropWhile isspace (dropWhile isdigit line)"
    have d: "dropWhile isdigit line = dropWhile isdigit xs" using Cons True by simp
    have "re_match prefix_pattern line
        = re_match [Lit (CHR ''-''), Star isspace, Star is_tag_char, Star isspace] ?s"
      using Cons True by (simp add: prefix_pattern_def after_digits after_spaces)
    also have "\<dots> = match_prefix line"
      using Cons True by (simp add: match_prefix_def lit_case tail_total cong: list.case_cong if_cong)
    finally show ?thesis .
  qed
qed

lemma re_sub_prefix_closed:
  "re_sub_prefix line = (case match_prefix line of None \<Rightarrow> line | Some rest \<Rightarrow> rest)"
  by (simp add: re_sub_prefix_def re_match_prefix)

subsection \<open>The avatar pattern\<close>

lemma re_match_lits:
  "re_match (map Lit p @ r) s = (if prefix p s then re_match r (drop (length p) s) else None)"
proof (induction p arbitrary: s)
  case Nil
  then show ?case by simp
next
  case (Cons c p)
  then show ?case by (cases s) auto
qed

lemma digit_not_slash: "isdigit x \<Longrightarrow> x \<noteq> CHR ''/''"
  by (auto simp add: isdigit_def Let_def)

lemma lit_last: "re_match [Lit c] t = (if prefix [c] t then Some (tl t) else None)"
  by (cases t) simp_all

lemma digits_then_slash:
  "re_match [Plus isdigit, Lit (CHR ''/'')] r =
     (if takeWhile isdigit r \<noteq> [] \<and> prefix ''/'' (dropWhile isdigit r)
      then Some (tl (dropWhile isdigit r)) else None)"
proof (cases r)
  case Nil
  then show ?thesis by simp
next
  case (Cons x xs)
  show ?thesis
  proof (cases "isdigit x")
    case False
    with Cons show ?thesis by simp
  next
    case True
    have "re_match [Star isdigit, Lit (CHR ''/'')] xs = re_match [Lit (CHR ''/'')] (dropWhile isdigit xs)"
      by (rule star_blocked) (simp add: digit_not_slash)
    also have "\<dots> = (if prefix ''/'' (dropWhile isdigit xs) then Some (tl (dropWhile isdigit xs)) else None)"
      by (rule lit_last)
    finally show ?thesis using Cons True by simp
  qed
qed

lemma re_match_avatar_lits:
  "re_match (map Lit ''/avatars/'' @ r) s = (if prefix ''/avatars/'' s then re_match r (drop 9 s) else None)"
  using re_match_lits [of "''/avatars/''" r s] by (simp add: eval_nat_numeral)

lemma match_avatar_closed:
  "match_avatar s =
     (if prefix ''/avatars/'' s \<and> takeWhile isdigit (drop 9 s) \<noteq> []
         \<and> prefix ''/'' (dropWhile isdigit (drop 9 s))
      then Some (takeWhile isdigit (drop 9 s)) else None)"
  unfolding match_avatar_def avatar_pattern_def re_match_avatar_lits
  by (simp add: digits_then_slash)

subsection \<open>Card names\<close>

lemma strip_ends:
  "strip s = [] \<or> (\<not> isspace (hd (strip s)) \<and> \<not> isspace (last (strip s)))"
proof (cases "dropWhile isspace (rev (dropWhile isspace s)) = []")
  case True
  then show ?thesis by (simp add: strip_def)
next
  case False
  let ?m = "dropWhile isspace s"
  let ?r = "dropWhile isspace (rev ?m)"
  have l: "\<not> isspace (hd ?r)" using False by (rule hd_dropWhile)
  have "rev ?m \<noteq> []" using False by (metis dropWhile.simps(1))
  then have mne: "?m \<noteq> []" by simp
  then have h: "\<not> isspace (hd ?m)" by (rule hd_dropWhile)
  obtain ys where ys: "rev ?m = ys @ ?r"
    by (metis takeWhile_dropWhile_id)
  then have "?m = rev ?r @ rev ys" by (metis rev_append rev_rev_ident)
  moreover have "rev ?r \<noteq> []" using False by simp
  ultimately have "hd (rev ?r) = hd ?m" by (metis hd_append2)
  with h have h': "\<not> isspace (hd (rev ?r))" by simp
  have "last (rev ?r) = hd ?r" using False by (simp add: last_rev)
  with l have "\<not> isspace (last (rev ?r))" by simp
  with h' show ?thesis by (simp add: strip_def)
qed

text \<open>
  C1 (the program at the example body). The first line loses its numeric and tag prefix;
  on the second line, which has no tag, the class \<open>[A-Z-]*\<close> consumes the capital \<open>S\<close>
  of the card name itself, so the program yields \<open>hield Knight\<close>.
\<close>

theorem extracted_cards_example:
  "extracted_cards example_body = [''Firebolt Dragon'', ''hield Knight'']"
  by code_simp

text \<open>
  C10: whatever the line, the name returned by \<open>clean_card_name\<close> is empty or begins and
  ends with a character that is not whitespace; this holds whether or not the prefix
  pattern matched.
\<close>

theorem clean_card_name_stripped:
  "clean_card_name line = [] \<or>
   (\<not> isspace (hd (clean_card_name line)) \<and> \<not> isspace (last (clean_card_name line)))"
  unfolding clean_card_name_def by (rule strip_ends)

theorem clean_card_name_stripped_witness:
  "clean_card_name ''  Shield Knight  '' = ''Shield Knight'' \<and>
   \<not> isspace (hd (clean_card_name ''  Shield Knight  '')) \<and>
   \<not> isspace (last (clean_card_name ''  Shield Knight  ''))"
proof -
  have e: "clean_card_name ''  Shield Knight  '' = ''Shield Knight''" by code_simp
  from clean_card_name_stripped [of "''  Shield Knight  ''"] e show ?thesis by simp
qed

lemma log_calls_snoc:
  "log_calls (calls @ [c]) logs = log_to_global (fst c) (snd c) (log_calls calls logs)"
  by (simp add: log_calls_def)

lemma log_calls_take:
  "log_calls calls [] = take 50 (rev (map (\<lambda>call. log_entry (fst call) (snd call)) calls))"
proof (induction calls rule: rev_induct)
  case Nil
  then show ?case by (simp add: log_calls_def)
next
  case (snoc c calls)
  have "take 50 (x # take 50 ys) = take 50 (x # ys)" for x :: string and ys
    by (simp add: take_Cons')
  with snoc show ?case by (simp add: log_calls_snoc log_to_global_def)
qed

text \<open>
  C9: after any run of \<open>log_to_global\<close> calls from the empty list the program starts
  with, the log list is the 50 newest entries, newest first, so it never holds more than
  50; \<open>api_logs\<close> returns that list.
\<close>

theorem log_list_newest_first_max_50:
  "log_calls calls [] = take 50 (rev (map (\<lambda>call. log_entry (fst call) (snd call)) calls))
   \<and> length (log_calls calls []) \<le> 50
   \<and> api_logs (log_calls calls []) = log_calls calls []"
  by (simp add: log_calls_take api_logs_def)

lemma owners_unique_update:
  "owners_unique db \<Longrightarrow> distinct v \<Longrightarrow> owners_unique (AList.update k v db)"
  by (induction db) (auto simp add: owners_unique_def)

lemma owners_unique_lookup:
  "owners_unique db \<Longrightarrow> map_of db k = Some v \<Longrightarrow> distinct v"
proof -
  assume u: "owners_unique db" and m: "map_of db k = Some v"
  from m have "(k, v) \<in> set db" by (rule map_of_SomeD)
  with u show "distinct v" by (fastforce simp add: owners_unique_def list_all_iff)
qed

lemma index_card_unique:
  "owners_unique (fst acc) \<Longrightarrow> owners_unique (fst (index_card owner_id acc card_name))"
proof -
  assume u: "owners_unique (fst acc)"
  let ?db1 = "if map_of (fst acc) card_name = None then AList.update card_name [] (fst acc) else fst acc"
  have u1: "owners_unique ?db1" using u by (simp add: owners_unique_update)
  show ?thesis
  proof (cases "map_of ?db1 card_name")
    case None
    then show ?thesis using u u1 by (simp add: index_card_def Let_def)
  next
    case (Some owner_list)
    with u1 have "distinct owner_list" by (rule owners_unique_lookup)
    then have "owner_id \<notin> set owner_list \<Longrightarrow>
        owners_unique (AList.update card_name (owner_list @ [owner_id]) ?db1)"
      using u1 by (intro owners_unique_update) simp_all
    then show ?thesis using u u1 Some by (simp add: index_card_def Let_def)
  qed
qed

lemma foldl_index_card_unique:
  "owners_unique (fst acc) \<Longrightarrow> owners_unique (fst (foldl (index_card owner_id) acc cards))"
  by (induction cards arbitrary: acc) (simp_all add: index_card_unique)

lemma index_cards_unique:
  "owners_unique db \<Longrightarrow> owners_unique (fst (index_cards owner_id db cards))"
  by (simp add: index_cards_def foldl_index_card_unique)

lemma index_one:
  "n \<noteq> [] \<Longrightarrow> owners_of (fst (index_cards owner_id db [n])) n =
     (if owner_id \<in> set (owners_of db n) then owners_of db n else owners_of db n @ [owner_id])"
  by (auto simp add: index_cards_def index_card_def Let_def owners_of_def update_conv'
      split: option.splits)

lemma count_distinct: "distinct xs \<Longrightarrow> x \<in> set xs \<Longrightarrow> count_list xs x = 1"
  by (induction xs) auto

lemma owners_of_distinct: "owners_unique db \<Longrightarrow> distinct (owners_of db n)"
  by (auto simp add: owners_of_def dest: owners_unique_lookup split: option.splits)

text \<open>
  C2: in a database whose owner lists are duplicate-free, indexing the pair of a card name
  \<open>n\<close> (not blank: blank names are skipped by the loop) and an owner id twice leaves
  exactly one occurrence of the owner id in the list of \<open>n\<close>; and the indexing loop, on
  any list of names, keeps every owner list duplicate-free.
\<close>

theorem index_twice_one_occurrence:
  assumes "owners_unique db" and "n \<noteq> []"
  shows "count_list (owners_of (fst (index_cards owner_id (fst (index_cards owner_id db [n])) [n])) n) owner_id = 1
     \<and> owners_unique (fst (index_cards owner_id db cards))"
proof -
  let ?db1 = "fst (index_cards owner_id db [n])"
  have u1: "owners_unique ?db1" using assms(1) by (rule index_cards_unique)
  have m1: "owner_id \<in> set (owners_of ?db1 n)" using assms(2) by (simp add: index_one)
  then have "owners_of (fst (index_cards owner_id ?db1 [n])) n = owners_of ?db1 n"
    using assms(2) by (simp add: index_one)
  moreover have "distinct (owners_of ?db1 n)" using u1 by (rule owners_of_distinct)
  ultimately show ?thesis using m1 assms(1) by (simp add: count_distinct index_cards_unique)
qed

theorem index_twice_one_occurrence_witness:
  "owners_unique [(''Shield Knight'', [''3''])] \<and> ''Firebolt Dragon'' \<noteq> [] \<and>
   count_list (owners_of (fst (index_cards ''1''
       (fst (index_cards ''1'' [(''Shield Knight'', [''3''])] [''Firebolt Dragon'']))
       [''Firebolt Dragon''])) ''Firebolt Dragon'') ''1'' = 1 \<and>
   owners_unique (fst (index_cards ''1'' [(''Shield Knight'', [''3''])]
       [''Firebolt Dragon'', ''Shield Knight'']))"
proof -
  have u: "owners_unique [(''Shield Knight'', [''3''])]" by (simp add: owners_unique_def)
  have n: "''Firebolt Dragon'' \<noteq> []" by simp
  from index_twice_one_occurrence [OF u n, of "''1''" "[''Firebolt Dragon'', ''Shield Knight'']"] u
  show ?thesis by simp
qed

lemma contains_sublist: "contains hay needle \<longleftrightarrow> sublist needle hay"
  by (induction hay) (auto simp add: sublist_Cons_right)

lemma foldl_found:
  "foldl (\<lambda>found item. if contains (lower (fst item)) query then found \<union> set (snd item) else found) S db
   = S \<union> {owner. \<exists>item\<in>set db. contains (lower (fst item)) query \<and> owner \<in> set (snd item)}"
  by (induction db arbitrary: S) auto

lemma found_ids_set:
  "found_ids query db = {owner. \<exists>item\<in>set db. sublist query (lower (fst item)) \<and> owner \<in> set (snd item)}"
  unfolding found_ids_def foldl_found by (simp add: contains_sublist)

lemma foldl_found_finite:
  "finite S \<Longrightarrow> finite (foldl (\<lambda>found item. if contains (lower (fst item)) query then found \<union> set (snd item) else found) S db)"
  by (induction db arbitrary: S) auto

lemma found_ids_finite: "finite (found_ids query db)"
  by (simp add: found_ids_def foldl_found_finite)

lemma example_load:
  "load_database example_json_load example_world = (Inr example_db, emit OpenRead example_world)"
  by (simp add: load_database_def ensure_data_dir_def example_world_def example_json_load_def
      emit_def Let_def)

text \<open>
  C3, as the program has it: the query is lowercased and stripped of surrounding
  whitespace. When the database file loads as \<open>db\<close>, the answer is a sorted list without
  duplicates; it is empty when the normalised query is empty, and otherwise its elements
  are exactly the owners attached to a card whose lowercased name contains the normalised
  query.
\<close>

theorem api_search_result:
  assumes "load_database json_load w = (Inr db, w')"
  shows "\<exists>owners. fst (api_search json_load q w) = Inr owners \<and> sorted owners \<and> distinct owners \<and>
           set owners = (if strip (lower q) = [] then {}
                         else {owner. \<exists>item\<in>set db. sublist (strip (lower q)) (lower (fst item))
                                        \<and> owner \<in> set (snd item)})"
proof (cases "strip (lower q) = []")
  case True
  then show ?thesis by (simp add: api_search_def)
next
  case False
  let ?found = "found_ids (strip (lower q)) db"
  have r: "fst (api_search json_load q w) = Inr (sorted_list_of_set ?found)"
    using False assms by (simp add: api_search_def)
  have "set (sorted_list_of_set ?found) = ?found" using found_ids_finite by simp
  then show ?thesis using False r by (simp add: found_ids_set)
qed

text \<open>The example of the claim: \<open>drag\<close> over the example database gives owners 1 and 2.\<close>

theorem api_search_result_witness:
  "load_database example_json_load example_world = (Inr example_db, emit OpenRead example_world) \<and>
   fst (api_search example_json_load ''drag'' example_world) = Inr [''1'', ''2''] \<and>
   (\<exists>owners. fst (api_search example_json_load ''drag'' example_world) = Inr owners \<and>
      sorted owners \<and> distinct owners \<and>
      set owners = (if strip (lower ''drag'') = [] then {}
                    else {owner. \<exists>item\<in>set example_db. sublist (strip (lower ''drag'')) (lower (fst item))
                                   \<and> owner \<in> set (snd item)}))"
proof -
  have v: "fst (api_search example_json_load ''drag'' example_world) = Inr [''1'', ''2'']"
    by code_simp
  from api_search_result [OF example_load, of "''drag''"] v example_load show ?thesis by blast
qed

text \<open>
  The claim as worded fails on a query with surrounding whitespace and on the empty
  query: \<open>drag\<close> followed by a space is in no card name, yet the program answers with
  owners 1 and 2; the empty string is in every card name, yet the program answers with
  the empty list.
\<close>

theorem api_search_as_claimed_counterexample:
  "fst (load_database example_json_load example_world) = Inr example_db \<and>
   fst (api_search example_json_load ''drag '' example_world) = Inr [''1'', ''2''] \<and>
   search_as_claimed example_db ''drag '' = [] \<and>
   fst (api_search example_json_load [] example_world) = Inr [] \<and>
   search_as_claimed example_db [] = [''1'', ''2'', ''3'']"
  by code_simp

text \<open>
  C4: on the empty query the answer is the empty list and the world is left as it was:
  no event is added, so the database file is not opened (and \<open>DATA_DIR\<close> is not created).
\<close>

theorem api_search_empty_query: "api_search json_load [] w = (Inr [], w)"
  by (simp add: api_search_def strip_def lower_def)

text \<open>
  C5 (the program on a file that cannot be read). When the file exists and reading it
  raises \<open>e\<close>, \<open>load_database\<close> returns the empty database and logs an error for
  \<open>JSONDecodeError\<close> and \<open>IOError\<close>, but lets \<open>UnicodeDecodeError\<close> (a file that is not
  UTF-8) out to its caller, with nothing logged.
\<close>

theorem load_database_failure:
  assumes "database_file w = Some content"
    and "(if read_refused w then Inl IOError else json_load content) = Inl e"
  shows "fst (load_database json_load w) = (if e = UnicodeDecodeError then Inl e else Inr []) \<and>
         events (snd (load_database json_load w)) =
           events (ensure_data_dir w) @ [OpenRead] @
           (if e = UnicodeDecodeError then []
            else [LogError (''Could not read or parse '' @ DATABASE_FILE @
                            ''. Starting with an empty database.'')])"
  using assms
  by (cases e) (simp_all add: load_database_def ensure_data_dir_def emit_def Let_def)

theorem load_database_failure_witness:
  "load_database example_json_load (example_world\<lparr>database_file := Some [CHR 0xFF]\<rparr>)
     = (Inl UnicodeDecodeError, emit OpenRead (example_world\<lparr>database_file := Some [CHR 0xFF]\<rparr>))"
proof -
  let ?w = "example_world\<lparr>database_file := Some [CHR 0xFF]\<rparr>"
  have f: "database_file ?w = Some [CHR 0xFF]" by simp
  have r: "(if read_refused ?w then Inl IOError else example_json_load [CHR 0xFF]) = Inl UnicodeDecodeError"
    by (simp add: example_world_def example_json_load_def example_file_def)
  from load_database_failure [where w = "?w" and content = "[CHR 0xFF]"
      and json_load = example_json_load and e = UnicodeDecodeError] f r
  show ?thesis
    by (simp add: load_database_def ensure_data_dir_def emit_def Let_def example_world_def
        example_json_load_def example_file_def)
qed

text \<open>
  C6: when the file can be opened for writing and for reading, and the \<open>json\<close> library
  reads back what it wrote for this database, \<open>load_database\<close> after \<open>save_database\<close>
  returns the database that was saved, whatever the file held before: the same keys and
  the same owner lists in the same order.
\<close>

theorem save_then_load:
  assumes "\<not> write_refused w" and "\<not> read_refused w" and "json_load (json_dump db) = Inr db"
  shows "fst (load_database json_load (save_database json_dump db w)) = Inr db"
  using assms
  by (simp add: load_database_def save_database_def ensure_data_dir_def emit_def Let_def)

theorem save_then_load_witness:
  "\<not> write_refused empty_world \<and> \<not> read_refused empty_world \<and>
   example_json_load (example_json_dump example_db) = Inr example_db \<and>
   fst (load_database example_json_load (save_database example_json_dump example_db empty_world))
     = Inr example_db"
proof -
  have w: "\<not> write_refused empty_world" and r: "\<not> read_refused empty_world"
    by (simp_all add: empty_world_def)
  have c: "example_json_load (example_json_dump example_db) = Inr example_db"
    by (simp add: example_json_load_def example_json_dump_def)
  from save_then_load [where w = empty_world and json_load = example_json_load
      and json_dump = example_json_dump and db = example_db] w r c
  show ?thesis by simp
qed

lemma index_card_snd:
  "snd (index_card owner_id acc c) = snd acc \<or> snd (index_card owner_id acc c) = snd acc @ [c]"
  by (simp add: index_card_def Let_def split: option.splits)

lemma index_card_same:
  "snd (index_card owner_id acc c) = snd acc \<Longrightarrow> fst (index_card owner_id acc c) = fst acc"
  by (auto simp add: index_card_def Let_def update_conv' split: option.splits if_splits)

lemma foldl_index_card_length:
  "length (snd acc) \<le> length (snd (foldl (index_card owner_id) acc cards))"
proof (induction cards arbitrary: acc)
  case Nil
  then show ?case by simp
next
  case (Cons c cards)
  have "length (snd acc) \<le> length (snd (index_card owner_id acc c))"
    using index_card_snd [of owner_id acc c] by auto
  also have "\<dots> \<le> length (snd (foldl (index_card owner_id) (index_card owner_id acc c) cards))"
    by (rule Cons.IH)
  finally show ?case by simp
qed

lemma foldl_index_card_same:
  "snd (foldl (index_card owner_id) acc cards) = snd acc \<Longrightarrow>
   fst (foldl (index_card owner_id) acc cards) = fst acc"
proof (induction cards arbitrary: acc)
  case Nil
  then show ?case by simp
next
  case (Cons c cards)
  let ?a = "index_card owner_id acc c"
  from Cons.prems have e: "snd (foldl (index_card owner_id) ?a cards) = snd acc" by simp
  have "length (snd ?a) \<le> length (snd (foldl (index_card owner_id) ?a cards))"
    by (rule foldl_index_card_length)
  with e have "length (snd ?a) \<le> length (snd acc)" by simp
  with index_card_snd [of owner_id acc c] have s: "snd ?a = snd acc" by auto
  with e have "snd (foldl (index_card owner_id) ?a cards) = snd ?a" by simp
  then have "fst (foldl (index_card owner_id) ?a cards) = fst ?a" by (rule Cons.IH)
  also have "\<dots> = fst acc" using s by (rule index_card_same)
  finally show ?case by simp
qed

lemma index_cards_none_updated:
  "snd (index_cards owner_id db cards) = [] \<Longrightarrow> fst (index_cards owner_id db cards) = db"
  using foldl_index_card_same [of owner_id "(db, [])" cards] by (simp add: index_cards_def)

lemma events_save_database:
  "events (save_database json_dump db w) =
     events (ensure_data_dir w) @ [OpenWrite] @
       (if write_refused w then [LogError (''Could not write to '' @ DATABASE_FILE @ ''.'')] else [])"
  by (simp add: save_database_def ensure_data_dir_def emit_def Let_def)

lemma count_ensure [simp]:
  "count_list (events (ensure_data_dir w)) OpenWrite = count_list (events w) OpenWrite"
  by (simp add: ensure_data_dir_def emit_def)

text \<open>
  C7: for an embed that passes the tests of lines 86 to 90, the database after the embed
  is the one the indexing loop leaves; \<open>save_database\<close> opens the file for writing once
  when \<open>updated_cards\<close> is not empty and not at all when it is empty; when it is not
  empty and the file can be written, the file then holds the dump of the new database;
  and when it is empty, the whole state (the in-memory mapping, the log list, the file and
  the event trace) is as before.
\<close>

theorem process_embed_saves_iff_updated:
  assumes "extract_embed e = Some (owner_id, owner_name, cards)"
  shows "card_database (process_embed json_dump now channel st e)
           = fst (index_cards owner_id (card_database st) cards)
     \<and> count_list (events (env (process_embed json_dump now channel st e))) OpenWrite
           = count_list (events (env st)) OpenWrite
             + (if snd (index_cards owner_id (card_database st) cards) = [] then 0 else 1)
     \<and> (snd (index_cards owner_id (card_database st) cards) \<noteq> [] \<and> \<not> write_refused (env st) \<longrightarrow>
          database_file (env (process_embed json_dump now channel st e))
            = Some (json_dump (fst (index_cards owner_id (card_database st) cards))))
     \<and> (snd (index_cards owner_id (card_database st) cards) = [] \<longrightarrow>
          process_embed json_dump now channel st e = st)"
proof (cases "snd (index_cards owner_id (card_database st) cards) = []")
  case True
  then have "fst (index_cards owner_id (card_database st) cards) = card_database st"
    by (rule index_cards_none_updated)
  with True assms show ?thesis by (simp add: process_embed_def Let_def)
next
  case False
  with assms show ?thesis
    by (simp add: process_embed_def Let_def events_save_database)
      (simp add: save_database_def ensure_data_dir_def emit_def Let_def)
qed

theorem process_embed_saves_iff_updated_witness:
  "extract_embed (alice_embed alice_url) = Some (''555'', ''Alice'', cards_in_embed example_body) \<and>
   card_database (process_embed example_json_dump ''12:00:00'' ''cards'' empty_bot (alice_embed alice_url))
     = [(''Firebolt Dragon'', [''555'']), (''hield Knight'', [''555''])] \<and>
   count_list (events (env (process_embed example_json_dump ''12:00:00'' ''cards'' empty_bot
       (alice_embed alice_url)))) OpenWrite = 1 \<and>
   process_embed example_json_dump ''12:00:01'' ''cards''
       (process_embed example_json_dump ''12:00:00'' ''cards'' empty_bot (alice_embed alice_url))
       (alice_embed alice_url)
     = process_embed example_json_dump ''12:00:00'' ''cards'' empty_bot (alice_embed alice_url)"
proof -
  let ?st1 = "process_embed example_json_dump ''12:00:00'' ''cards'' empty_bot (alice_embed alice_url)"
  have x: "extract_embed (alice_embed alice_url) = Some (''555'', ''Alice'', cards_in_embed example_body)"
    by code_simp
  have c: "cards_in_embed example_body = [''Firebolt Dragon'', [], ''hield Knight'']"
    by code_simp
  have i0: "index_cards ''555'' [] [''Firebolt Dragon'', [], ''hield Knight'']
      = ([(''Firebolt Dragon'', [''555'']), (''hield Knight'', [''555''])],
         [''Firebolt Dragon'', ''hield Knight''])"
    by code_simp
  have i1: "index_cards ''555'' [(''Firebolt Dragon'', [''555'']), (''hield Knight'', [''555''])]
      [''Firebolt Dragon'', [], ''hield Knight'']
      = ([(''Firebolt Dragon'', [''555'']), (''hield Knight'', [''555''])], [])"
    by code_simp
  from process_embed_saves_iff_updated [OF x, of example_json_dump "''12:00:00''" "''cards''" empty_bot]
  have a: "card_database ?st1 = [(''Firebolt Dragon'', [''555'']), (''hield Knight'', [''555''])]"
    and b: "count_list (events (env ?st1)) OpenWrite = 1"
    by (simp_all add: c i0 empty_bot_def empty_world_def)
  from process_embed_saves_iff_updated [OF x, of example_json_dump "''12:00:01''" "''cards''" ?st1]
  have "process_embed example_json_dump ''12:00:01'' ''cards'' ?st1 (alice_embed alice_url) = ?st1"
    by (simp add: c a i1)
  with x a b show ?thesis by simp
qed

lemma search_avatar_skip:
  "(\<forall>i<length pre. match_avatar (drop i (pre @ s)) = None) \<Longrightarrow>
   search_avatar (pre @ s) = search_avatar s"
proof (induction pre)
  case Nil
  then show ?case by simp
next
  case (Cons c pre)
  from Cons.prems have "match_avatar (drop 0 ((c # pre) @ s)) = None" by blast
  then have h: "match_avatar (c # pre @ s) = None" by simp
  have "\<forall>i<length pre. match_avatar (drop i (pre @ s)) = None"
  proof (intro allI impI)
    fix i assume "i < length pre"
    then have "Suc i < length (c # pre)" by simp
    with Cons.prems have "match_avatar (drop (Suc i) ((c # pre) @ s)) = None" by blast
    then show "match_avatar (drop i (pre @ s)) = None" by simp
  qed
  then have "search_avatar (pre @ s) = search_avatar s" by (rule Cons.IH)
  with h show ?case by simp
qed

lemma list_all_upt: "list_all P [0..<n] \<Longrightarrow> \<forall>i<n. P i"
  by (simp add: list_all_iff)

lemma match_avatar_555: "match_avatar (''/avatars/555/'' @ post) = Some ''555''"
  by (simp add: match_avatar_closed isdigit_def)

lemma search_avatar_555: "search_avatar (''/avatars/555/'' @ post) = Some ''555''"
  using match_avatar_555 [of post] by simp

lemma owner_label_alice: "owner_label alice_name = ''Alice''"
  by (simp add: owner_label_def alice_name_def)

lemma alice_collection: "contains (lower alice_name) ''collection''"
  by code_simp

text \<open>
  C8, as the program has it. Take any embed that has an author with an icon URL. When the
  author name is \<open>Alice's Collection\<close> and the first place of the URL where the avatar
  pattern matches is a segment \<open>/avatars/555/\<close>, lines 89 to 92 yield owner id 555 and
  owner label Alice, and so does the extraction from the whole embed when it has the
  non-empty description line 86 asks for. When the pattern matches nowhere in the URL, the
  embed leaves the whole state unchanged, whatever its author name and description.
\<close>

theorem alice_extraction:
  assumes "embed_author e = Some a" and "author_icon_url a = Some url"
  shows "(author_name a = Some alice_name \<and> url = pre @ ''/avatars/555/'' @ post
            \<and> (\<forall>i<length pre. match_avatar (drop i url) = None)
            \<longrightarrow> search_avatar url = Some ''555'' \<and> owner_label alice_name = ''Alice'' \<and>
                (\<forall>description. embed_description e = Some description \<and> description \<noteq> [] \<longrightarrow>
                   extract_embed e = Some (''555'', ''Alice'', cards_in_embed description)))
       \<and> (search_avatar url = None \<longrightarrow> process_embed json_dump now channel st e = st)"
proof -
  have n: "alice_name \<noteq> []" by (simp add: alice_name_def)
  have a: "search_avatar url = None \<Longrightarrow> extract_embed e = None"
    using assms by (simp add: extract_embed_def split: option.splits)
  have b: "search_avatar url = Some ''555'' \<and> owner_label alice_name = ''Alice'' \<and>
      (\<forall>description. embed_description e = Some description \<and> description \<noteq> [] \<longrightarrow>
         extract_embed e = Some (''555'', ''Alice'', cards_in_embed description))"
    if nm: "author_name a = Some alice_name"
      and u: "url = pre @ ''/avatars/555/'' @ post"
      and f: "\<forall>i<length pre. match_avatar (drop i url) = None"
  proof -
    from f have "search_avatar (pre @ ''/avatars/555/'' @ post) = search_avatar (''/avatars/555/'' @ post)"
      unfolding u by (rule search_avatar_skip)
    then have s: "search_avatar url = Some ''555''" using u search_avatar_555 [of post] by simp
    have "url \<noteq> []" using u by simp
    then show ?thesis using assms nm s n alice_collection owner_label_alice
      by (simp add: extract_embed_def)
  qed
  from a b show ?thesis by (auto simp add: process_embed_def)
qed

text \<open>
  Two instances: Alice's embed with a Discord avatar URL, and an embed of another author
  whose icon URL has no avatar segment.
\<close>

theorem alice_extraction_witness:
  "extract_embed (alice_embed alice_url) = Some (''555'', ''Alice'', cards_in_embed example_body) \<and>
   process_embed example_json_dump ''12:00:00'' ''cards'' empty_bot
     \<lparr>embed_author = Some \<lparr>author_name = Some ''Bob wishlist'',
        author_icon_url = Some ''https://cdn.discordapp.com/embed/avatars/0.png''\<rparr>,
      embed_description = Some example_body\<rparr>
     = empty_bot"
proof -
  have u: "alice_url = ''https://cdn.discordapp.com'' @ ''/avatars/555/'' @ ''a.png''"
    by (simp add: alice_url_def)
  have "list_all (\<lambda>i. match_avatar (drop i alice_url) = None) [0..<length ''https://cdn.discordapp.com'']"
    by code_simp
  then have f: "\<forall>i<length ''https://cdn.discordapp.com''. match_avatar (drop i alice_url) = None"
    by (rule list_all_upt)
  have d: "example_body \<noteq> []" by (simp add: example_body_def)
  have n: "search_avatar ''https://cdn.discordapp.com/embed/avatars/0.png'' = None" by code_simp
  from alice_extraction [where e = "alice_embed alice_url" and url = alice_url
      and a = "\<lparr>author_name = Some alice_name, author_icon_url = Some alice_url\<rparr>"
      and pre = "''https://cdn.discordapp.com''" and post = "''a.png''"]
    u f d
  have 1: "extract_embed (alice_embed alice_url) = Some (''555'', ''Alice'', cards_in_embed example_body)"
    by (simp add: alice_embed_def)
  from alice_extraction [where url = "''https://cdn.discordapp.com/embed/avatars/0.png''"
      and a = "\<lparr>author_name = Some ''Bob wishlist'',
        author_icon_url = Some ''https://cdn.discordapp.com/embed/avatars/0.png''\<rparr>"
      and e = "\<lparr>embed_author = Some \<lparr>author_name = Some ''Bob wishlist'',
          author_icon_url = Some ''https://cdn.discordapp.com/embed/avatars/0.png''\<rparr>,
        embed_description = Some example_body\<rparr>"
      and json_dump = example_json_dump and now = "''12:00:00''"
      and channel = "''cards''" and st = empty_bot] n
  have 2: "process_embed example_json_dump ''12:00:00'' ''cards'' empty_bot
     \<lparr>embed_author = Some \<lparr>author_name = Some ''Bob wishlist'',
        author_icon_url = Some ''https://cdn.discordapp.com/embed/avatars/0.png''\<rparr>,
      embed_description = Some example_body\<rparr>
     = empty_bot"
    by simp
  from 1 2 show ?thesis by simp
qed

text \<open>
  The claim as worded fails on a URL that holds the segment \<open>/avatars/555/\<close> after an
  earlier match of the pattern: \<open>re.search\<close> returns the first match, so the owner id is 1.
\<close>

theorem alice_extraction_counterexample:
  "contains two_avatars_url ''/avatars/555/'' \<and>
   map_option fst (extract_embed (alice_embed two_avatars_url)) = Some ''1''"
  by code_simp

end
